theory Spec2Isabelle
  imports
    Main
    "HOL-Library.AList"
    "HOL-Library.Char_ord"
    "HOL-Library.List_Lexorder"
    "HOL-Library.Word"
begin

section \<open>Descriptor registry (package protoregistry)\<close>

subsection \<open>Names and string helpers\<close>

text \<open>
  \<open>protoreflect.Name\<close> and \<open>protoreflect.FullName\<close> are Go strings. Go compares strings
  byte by byte, which is the lexicographic order on \<open>char list\<close>.
\<close>

type_synonym Name = string
type_synonym FullName = string

text \<open>\<open>strings.IndexByte(s, c)\<close>: the index of the first \<open>c\<close> in \<open>s\<close>, or \<open>-1\<close> (here \<open>None\<close>).\<close>

fun IndexByte :: "string \<Rightarrow> char \<Rightarrow> nat option" where
  "IndexByte [] c = None"
| "IndexByte (x # xs) c =
     (if x = c then Some 0
      else (case IndexByte xs c of None \<Rightarrow> None | Some i \<Rightarrow> Some (Suc i)))"

text \<open>
  \<open>splitPrefix\<close>: everything before the first dot, and everything after it; a name without
  a dot is its own prefix and leaves the empty rest.
\<close>

definition splitPrefix :: "FullName \<Rightarrow> Name \<times> FullName" where
  "splitPrefix name =
     (case IndexByte name CHR ''.'' of
        Some i \<Rightarrow> (take i name, drop (i + length ''.'') name)
      | None \<Rightarrow> (name, []))"

text \<open>\<open>strings.HasSuffix\<close> and \<open>strings.TrimSuffix\<close>.\<close>

definition HasSuffix :: "string \<Rightarrow> string \<Rightarrow> bool" where
  "HasSuffix s suffix \<longleftrightarrow>
     length suffix \<le> length s \<and> drop (length s - length suffix) s = suffix"

definition TrimSuffix :: "string \<Rightarrow> string \<Rightarrow> string" where
  "TrimSuffix s suffix =
     (if HasSuffix s suffix then take (length s - length suffix) s else s)"

text \<open>
  \<open>FullName.Append\<close> of package protoreflect joins a full name and a name with a dot; the
  empty full name is the root scope, and appending to it gives the name itself.
\<close>

definition Append :: "FullName \<Rightarrow> Name \<Rightarrow> FullName" where
  "Append n s = (if n = [] then s else n @ ''.'' @ s)"

subsection \<open>\<open>sort.Search\<close>\<close>

text \<open>
  The binary search of package sort: with \<open>i, j := 0, n\<close>, the loop halves the interval
  \<open>[i, j)\<close> until it is empty, keeping \<open>f\<close> false below \<open>i\<close> and true from \<open>j\<close> on.
\<close>

function Search_loop :: "nat \<Rightarrow> nat \<Rightarrow> (nat \<Rightarrow> bool) \<Rightarrow> nat" where
  "Search_loop i j f =
     (if i < j then
        (let h = (i + j) div 2 in
         if \<not> f h then Search_loop (h + 1) j f else Search_loop i h f)
      else i)"
  by pat_completeness auto
termination
  by (relation "measure (\<lambda>(i, j, f). j - i)") auto

declare Search_loop.simps [simp del]

definition Search :: "nat \<Rightarrow> (nat \<Rightarrow> bool) \<Rightarrow> nat" where
  "Search n f = Search_loop 0 n f"

subsection \<open>File descriptors\<close>

text \<open>
  What the registry reads of a \<open>protoreflect.FileDescriptor\<close>: its path, its package, the
  placeholder flag, and the names of its top-level declarations (enums with their values,
  messages, extensions, services).
\<close>

record EnumDescriptor =
  EnumName :: Name
  EnumValues :: "Name list"

record FileDescriptor =
  Path :: string
  Package :: FullName
  IsPlaceholder :: bool
  Enums :: "EnumDescriptor list"
  Messages :: "Name list"
  Extensions :: "Name list"
  Services :: "Name list"

text \<open>
  The names that \<open>rangeTopLevelDeclarations\<close> passes to its callback, in the order of the
  calls: each enum followed by its values, then messages, extensions and services.
\<close>

definition topLevelDeclarations :: "FileDescriptor \<Rightarrow> Name list" where
  "topLevelDeclarations fd =
     concat (map (\<lambda>e. EnumName e # EnumValues e) (Enums fd))
       @ Messages fd @ Extensions fd @ Services fd"

text \<open>The callback is a closure over mutable state; the model threads that state.\<close>

definition rangeTopLevelDeclarations :: "FileDescriptor \<Rightarrow> (Name \<Rightarrow> 's \<Rightarrow> 's) \<Rightarrow> 's \<Rightarrow> 's" where
  "rangeTopLevelDeclarations fd f s = fold f (topLevelDeclarations fd) s"

subsection \<open>The registry\<close>

text \<open>
  A \<open>filesByPackage\<close> node holds the files of one package and a map from the next name
  segment to a \<open>*filesByPackage\<close>. Such a pointer is either the \<open>notProtoPackage\<close>
  sentinel, marking a top-level declaration, or a real sub-package node; the nil pointer
  is a key that the map does not have. The map is an association list read with
  \<open>map_of\<close>.
\<close>

datatype filesByPackage =
  FilesByPackage (files: "FileDescriptor list") (subs: "(Name \<times> subPackage) list")
and subPackage =
  notProtoPackage
| Sub filesByPackage

type_synonym filesByPath = "(string \<times> FileDescriptor list) list"

record Files =
  filesByPackage :: filesByPackage
  filesByPath :: filesByPath

datatype error =
  NotFound
| NameConflict string FullName

text \<open>\<open>new(Files)\<close>: an empty package tree and an empty path index.\<close>

definition newFiles :: Files where
  "newFiles = \<lparr>filesByPackage = FilesByPackage [] [], filesByPath = []\<rparr>"

subsection \<open>Register\<close>

text \<open>
  The first callback of \<open>Register\<close> over the top-level declarations: a name that the
  package node does not know yet is entered as \<open>notProtoPackage\<close>, any other name is
  appended to \<open>conflicts\<close>. The state is the pair of \<open>root.subs\<close> and \<open>conflicts\<close>.
\<close>

definition declareName ::
  "Name \<Rightarrow> (Name \<times> subPackage) list \<times> Name list \<Rightarrow> (Name \<times> subPackage) list \<times> Name list" where
  "declareName s st =
     (case st of (sbs, conflicts) \<Rightarrow>
        (if map_of sbs s = None then (AList.update s notProtoPackage sbs, conflicts)
         else (sbs, conflicts @ [s])))"

text \<open>
  The second callback, run when there are conflicts: with \<open>conflicts\<close> sorted, a binary
  search decides whether \<open>s\<close> is one of them, and every other name is deleted from
  \<open>root.subs\<close>.
\<close>

definition removeName :: "Name list \<Rightarrow> Name \<Rightarrow> (Name \<times> subPackage) list \<Rightarrow> (Name \<times> subPackage) list" where
  "removeName conflicts s sbs =
     (let i = Search (length conflicts) (\<lambda>i. conflicts ! i \<ge> s);
          has = (i < length conflicts \<and> conflicts ! i = s)
      in if \<not> has then AList.delete s sbs else sbs)"

text \<open>
  The part of the loop body after the package walk, at the package node \<open>root\<close>: the
  result is the node as the body leaves it and, when the file is rejected, the name that
  the error reports (\<open>conflicts[0]\<close> after sorting, appended to the package). An accepted
  file is appended to \<open>root.files\<close>.
\<close>

definition registerDeclarations :: "FileDescriptor \<Rightarrow> filesByPackage \<Rightarrow> filesByPackage \<times> FullName option" where
  "registerDeclarations file root =
     (case rangeTopLevelDeclarations file declareName (subs root, []) of
        (sbs, conflicts) \<Rightarrow>
          (if length conflicts > 0 then
             (let sorted_conflicts = sort conflicts;
                  sbs' = rangeTopLevelDeclarations file (removeName sorted_conflicts) sbs
              in (FilesByPackage (files root) sbs',
                  Some (Append (Package file) (hd sorted_conflicts))))
           else (FilesByPackage (files root @ [file]) sbs, None)))"

text \<open>
  The walk down the package name, one segment per iteration, followed by the declarations
  at the node it ends in. The Go loop moves the pointer \<open>root\<close> down the tree and writes
  through it; here each level returns its node rebuilt around the child that the rest of
  the walk returns. A missing segment gets a new empty node, which stays in the tree
  whatever happens below it; a segment that is a declared name stops the walk with the
  conflict over the package prefix walked so far.
\<close>

function registerPackage ::
  "FileDescriptor \<Rightarrow> FullName \<Rightarrow> filesByPackage \<Rightarrow> filesByPackage \<times> FullName option" where
  "registerPackage file pkg root =
     (if length pkg > 0 then
        (case splitPrefix pkg of (prefix, pkg') \<Rightarrow>
           (case map_of (subs root) prefix of
              None \<Rightarrow>
                (case registerPackage file pkg' (FilesByPackage [] []) of
                   (nextRoot, err) \<Rightarrow>
                     (FilesByPackage (files root) (AList.update prefix (Sub nextRoot) (subs root)),
                      err))
            | Some notProtoPackage \<Rightarrow>
                (root, Some (TrimSuffix (TrimSuffix (Package file) pkg') ''.''))
            | Some (Sub nextRoot) \<Rightarrow>
                (case registerPackage file pkg' nextRoot of
                   (nextRoot', err) \<Rightarrow>
                     (FilesByPackage (files root) (AList.update prefix (Sub nextRoot') (subs root)),
                      err))))
      else registerDeclarations file root)"
  by pat_completeness auto
termination
  by (relation "measure (\<lambda>(fd, pkg, root). length pkg)")
    (auto simp: splitPrefix_def split: option.splits)

declare registerPackage.simps [simp del]

text \<open>
  \<open>r.filesByPath[file.Path()] = append(r.filesByPath[file.Path()], file)\<close>; a path that
  the index does not have reads as the empty list.
\<close>

definition appendByPath :: "FileDescriptor \<Rightarrow> filesByPath \<Rightarrow> filesByPath" where
  "appendByPath file idx =
     AList.update (Path file)
       ((case map_of idx (Path file) of None \<Rightarrow> [] | Some fds \<Rightarrow> fds) @ [file]) idx"

text \<open>
  One iteration of \<open>fileLoop\<close>. The error is made only when \<open>firstErr\<close> is still nil.
\<close>

definition registerFile :: "FileDescriptor \<Rightarrow> Files \<times> error option \<Rightarrow> Files \<times> error option" where
  "registerFile file st =
     (case st of (r, firstErr) \<Rightarrow>
        (if IsPlaceholder file then (r, firstErr)
         else
           (case registerPackage file (Package file) (filesByPackage r) of
              (root, Some name) \<Rightarrow>
                (r\<lparr>filesByPackage := root\<rparr>,
                 if firstErr = None then Some (NameConflict (Path file) name) else firstErr)
            | (root, None) \<Rightarrow>
                (r\<lparr>filesByPackage := root, filesByPath := appendByPath file (filesByPath r)\<rparr>,
                 firstErr))))"

fun Register_loop :: "Files \<times> error option \<Rightarrow> FileDescriptor list \<Rightarrow> Files \<times> error option" where
  "Register_loop st [] = st"
| "Register_loop st (file # rest) = Register_loop (registerFile file st) rest"

text \<open>\<open>Register\<close> returns \<open>firstErr\<close>; the registry is updated in place.\<close>

definition Register :: "Files \<Rightarrow> FileDescriptor list \<Rightarrow> Files \<times> error option" where
  "Register r fds = Register_loop (r, None) fds"

subsection \<open>Lookup\<close>

text \<open>
  \<open>fd.DescriptorByName(name)\<close> is a method of the descriptor interface; the lookup takes
  it as the parameter \<open>dbn\<close>, with \<open>None\<close> for the nil descriptor.
\<close>

fun searchFiles :: "(FileDescriptor \<Rightarrow> FullName \<Rightarrow> 'd option) \<Rightarrow> FullName \<Rightarrow> FileDescriptor list \<Rightarrow> error + 'd" where
  "searchFiles dbn name [] = Inl NotFound"
| "searchFiles dbn name (fd # fds) =
     (case dbn fd name of Some d \<Rightarrow> Inr d | None \<Rightarrow> searchFiles dbn name fds)"

function findDescriptor ::
  "(FileDescriptor \<Rightarrow> FullName \<Rightarrow> 'd option) \<Rightarrow> FullName \<Rightarrow> FullName \<Rightarrow> filesByPackage \<Rightarrow> error + 'd" where
  "findDescriptor dbn name pkg root =
     (if length pkg > 0 then
        (case splitPrefix pkg of (prefix, pkg') \<Rightarrow>
           (case map_of (subs root) prefix of
              None \<Rightarrow> Inl NotFound
            | Some notProtoPackage \<Rightarrow> searchFiles dbn name (files root)
            | Some (Sub nextRoot) \<Rightarrow> findDescriptor dbn name pkg' nextRoot))
      else Inl NotFound)"
  by pat_completeness auto
termination
  by (relation "measure (\<lambda>(dbn, name, pkg, root). length pkg)")
    (auto simp: splitPrefix_def split: option.splits)

declare findDescriptor.simps [simp del]

text \<open>The receiver \<open>r *Files\<close> may be nil: \<open>None\<close>.\<close>

definition FindDescriptorByName ::
  "(FileDescriptor \<Rightarrow> FullName \<Rightarrow> 'd option) \<Rightarrow> Files option \<Rightarrow> FullName \<Rightarrow> error + 'd" where
  "FindDescriptorByName dbn r name =
     (case r of
        None \<Rightarrow> Inl NotFound
      | Some r' \<Rightarrow> findDescriptor dbn name name (filesByPackage r'))"

subsection \<open>Iteration\<close>

text \<open>
  The callback \<open>f func(FileDescriptor) bool\<close> is a closure: it gets the state of its
  captured variables and returns the new state with its result, \<open>False\<close> to stop. Each
  iteration function returns the state that the callback has left, so the calls made can
  be read from a callback that records them.
\<close>

type_synonym 's callback = "FileDescriptor \<Rightarrow> 's \<Rightarrow> bool \<times> 's"

fun rangeList :: "'s callback \<Rightarrow> FileDescriptor list \<Rightarrow> 's \<Rightarrow> bool \<times> 's" where
  "rangeList f [] s = (True, s)"
| "rangeList f (fd # fds) s =
     (case f fd s of
        (False, s') \<Rightarrow> (False, s')
      | (True, s') \<Rightarrow> rangeList f fds s')"

text \<open>
  \<open>rangeFiles\<close> on a non-nil pointer: the exact matches, then the sub-packages in the
  order of the map (undefined in Go, the order of the association list here). The
  sentinel is an empty \<open>filesByPackage\<close>: it has no files and no sub-packages.
\<close>

fun rangeFiles_sub :: "'s callback \<Rightarrow> subPackage \<Rightarrow> 's \<Rightarrow> bool \<times> 's"
  and rangeFiles_subs :: "'s callback \<Rightarrow> (Name \<times> subPackage) list \<Rightarrow> 's \<Rightarrow> bool \<times> 's" where
  "rangeFiles_sub f notProtoPackage s = (True, s)"
| "rangeFiles_sub f (Sub (FilesByPackage fds sbs)) s =
     (case rangeList f fds s of
        (False, s') \<Rightarrow> (False, s')
      | (True, s') \<Rightarrow> rangeFiles_subs f sbs s')"
| "rangeFiles_subs f [] s = (True, s)"
| "rangeFiles_subs f ((k, sp) # rest) s =
     (case rangeFiles_sub f sp s of
        (False, s') \<Rightarrow> (False, s')
      | (True, s') \<Rightarrow> rangeFiles_subs f rest s')"

definition rangeFiles :: "subPackage option \<Rightarrow> 's callback \<Rightarrow> 's \<Rightarrow> bool \<times> 's" where
  "rangeFiles fs f s =
     (case fs of
        None \<Rightarrow> (True, s)
      | Some sp \<Rightarrow> rangeFiles_sub f sp s)"

text \<open>\<open>root.subs\<close> read through a pointer that may be the sentinel.\<close>

fun subsOf :: "subPackage \<Rightarrow> (Name \<times> subPackage) list" where
  "subsOf notProtoPackage = []"
| "subsOf (Sub node) = subs node"

text \<open>The loop of \<open>RangeFilesByPackage\<close>: \<open>for len(pkg) > 0 && root != nil\<close>.\<close>

function walkPackage :: "FullName \<Rightarrow> subPackage option \<Rightarrow> subPackage option" where
  "walkPackage pkg root =
     (case root of
        None \<Rightarrow> None
      | Some sp \<Rightarrow>
          (if length pkg > 0 then
             (case splitPrefix pkg of (prefix, pkg') \<Rightarrow>
                walkPackage pkg' (map_of (subsOf sp) prefix))
           else root))"
  by pat_completeness auto
termination
  by (relation "measure (\<lambda>(pkg, root). length pkg)")
    (auto simp: splitPrefix_def split: option.splits)

declare walkPackage.simps [simp del]

definition RangeFilesByPackage :: "Files option \<Rightarrow> FullName \<Rightarrow> 's callback \<Rightarrow> 's \<Rightarrow> 's" where
  "RangeFilesByPackage r pkg f s =
     (case r of
        None \<Rightarrow> s
      | Some r' \<Rightarrow>
          (if HasSuffix pkg ''.'' then s
           else snd (rangeFiles (walkPackage pkg (Some (Sub (filesByPackage r')))) f s)))"

definition RangeFiles :: "Files option \<Rightarrow> 's callback \<Rightarrow> 's \<Rightarrow> 's" where
  "RangeFiles r f s = RangeFilesByPackage r [] f s"

definition RangeFilesByPath :: "Files option \<Rightarrow> string \<Rightarrow> 's callback \<Rightarrow> 's \<Rightarrow> 's" where
  "RangeFilesByPath r path f s =
     (case r of
        None \<Rightarrow> s
      | Some r' \<Rightarrow>
          snd (rangeList f (case map_of (filesByPath r') path of None \<Rightarrow> [] | Some fds \<Rightarrow> fds) s))"

text \<open>A callback that records the file of each call and always continues.\<close>

definition record_call :: "(FileDescriptor list) callback" where
  "record_call fd calls = (True, calls @ [fd])"

section \<open>Message reflection (package impl)\<close>

subsection \<open>Go types as package reflect shows them\<close>

datatype Kind =
  Invalid | Bool | Int | Int8 | Int16 | Int32 | Int64
| Uint | Uint8 | Uint16 | Uint32 | Uint64 | Uintptr
| Float32 | Float64 | Complex64 | Complex128
| Array | Chan | Func | Interface | Map | Ptr | Slice | String | Struct | UnsafePointer

text \<open>
  A \<open>reflect.Type\<close>. A struct type has a name, its declared fields in order and, when its
  pointer type has the method \<open>XXX_OneofFuncs\<close>, the dynamic types of the values in the
  fourth result of that method (\<open>None\<close> when there is no such method, and \<open>None\<close> in the
  list for a nil interface value). A struct tag is the list of its key-value pairs.
\<close>

datatype goType =
  Basic Kind
| PtrTo goType
| SliceOf goType
| ArrayOf nat goType
| ChanOf goType
| MapOf goType goType
| StructOf string "fieldDecl list" "goType option list option"
and fieldDecl =
  FieldDecl (declName: string) (declType: goType) (declTag: "(string \<times> string) list")
    (declAnonymous: bool)

record StructField =
  Name :: string
  Type :: goType
  Tag :: "(string \<times> string) list"
  Index :: "nat list"
  Anonymous :: bool

datatype panic =
  WantStructKind goType
| TypeMismatch "goType option" "goType option"
| InvalidField int
| EmbeddedStructs
| ReflectPanic string
| NilDereference
| UsageError string

fun reflect_Kind :: "goType \<Rightarrow> Kind" where
  "reflect_Kind (Basic k) = k"
| "reflect_Kind (PtrTo t) = Ptr"
| "reflect_Kind (SliceOf t) = Slice"
| "reflect_Kind (ArrayOf n t) = Array"
| "reflect_Kind (ChanOf t) = Chan"
| "reflect_Kind (MapOf k t) = Map"
| "reflect_Kind (StructOf name fds oneofFuncs) = Struct"

text \<open>\<open>Type.Elem\<close> panics unless the kind is Array, Chan, Map, Ptr or Slice.\<close>

fun Elem :: "goType \<Rightarrow> panic + goType" where
  "Elem (PtrTo t) = Inr t"
| "Elem (SliceOf t) = Inr t"
| "Elem (ArrayOf n t) = Inr t"
| "Elem (ChanOf t) = Inr t"
| "Elem (MapOf k t) = Inr t"
| "Elem t = Inl (ReflectPanic ''reflect: Elem of invalid type'')"

text \<open>\<open>Type.NumField\<close> panics unless the kind is Struct.\<close>

fun NumField :: "goType \<Rightarrow> panic + nat" where
  "NumField (StructOf name fds oneofFuncs) = Inr (length fds)"
| "NumField t = Inl (ReflectPanic ''reflect: NumField of non-struct type'')"

text \<open>
  \<open>Type.Field(i)\<close>: the \<open>i\<close>-th declared field, with the index sequence \<open>[i]\<close>; it panics on
  a type that is not a struct and on an index out of range.
\<close>

fun Field :: "goType \<Rightarrow> nat \<Rightarrow> panic + StructField" where
  "Field (StructOf name fds oneofFuncs) i =
     (if i < length fds then
        Inr \<lparr>Name = declName (fds ! i), Type = declType (fds ! i), Tag = declTag (fds ! i),
             Index = [i], Anonymous = declAnonymous (fds ! i)\<rparr>
      else Inl (ReflectPanic ''reflect: Field index out of bounds''))"
| "Field t i = Inl (ReflectPanic ''reflect: Field of non-struct type'')"

text \<open>\<open>StructTag.Get\<close>: the value of a key, the empty string when the tag has no such key.\<close>

definition TagGet :: "(string \<times> string) list \<Rightarrow> string \<Rightarrow> string" where
  "TagGet tag key = (case map_of tag key of None \<Rightarrow> [] | Some v \<Rightarrow> v)"

text \<open>
  \<open>reflect.PtrTo(t).MethodByName("XXX_OneofFuncs")\<close> and the call of the method: the types
  of the wrapper values it lists.
\<close>

fun XXX_OneofFuncs :: "goType \<Rightarrow> goType option list option" where
  "XXX_OneofFuncs (StructOf name fds oneofFuncs) = oneofFuncs"
| "XXX_OneofFuncs t = None"

subsection \<open>The field locator (build tag purego)\<close>

text \<open>\<open>offsetOf\<close>: the offset of a struct field is its index sequence, which must have length one.\<close>

definition offsetOf :: "StructField \<Rightarrow> panic + nat list" where
  "offsetOf f = (if length (Index f) \<noteq> 1 then Inl EmbeddedStructs else Inr (Index f))"

subsection \<open>String helpers of the tag scan\<close>

text \<open>\<open>strings.Split\<close> with a separator of one byte.\<close>

fun Split :: "string \<Rightarrow> char \<Rightarrow> string list" where
  "Split [] c = [[]]"
| "Split (x # xs) c =
     (if x = c then [] # Split xs c
      else (case Split xs c of [] \<Rightarrow> [[x]] | y # ys \<Rightarrow> (x # y) # ys))"

text \<open>\<open>strings.Trim\<close>: the string without its leading and trailing bytes from the cutset.\<close>

definition Trim :: "string \<Rightarrow> string \<Rightarrow> string" where
  "Trim s cutset =
     rev (dropWhile (\<lambda>c. c \<in> set cutset) (rev (dropWhile (\<lambda>c. c \<in> set cutset) s)))"

text \<open>
  \<open>strconv.ParseUint(s, 10, 64)\<close> on a string of decimal digits, the error dropped: the
  number, or the largest \<open>uint64\<close> when the number is out of range.
\<close>

definition ParseUint :: "string \<Rightarrow> nat" where
  "ParseUint s =
     (let n = foldl (\<lambda>n c. 10 * n + (of_char c - 48)) 0 s
      in if n \<ge> 2 ^ 64 then 2 ^ 64 - 1 else n)"

text \<open>The conversion \<open>pref.FieldNumber(n)\<close> of a \<open>uint64\<close> to the 32-bit signed field number.\<close>

definition FieldNumber :: "nat \<Rightarrow> int" where
  "FieldNumber n = sint (word_of_nat n :: 32 word)"

text \<open>
  The inner loop over the comma-separated parts of the \<open>protobuf\<close> tag: the first part that
  is not empty and is made of digits only gives the field number.
\<close>

fun tagNumber :: "string list \<Rightarrow> int option" where
  "tagNumber [] = None"
| "tagNumber (s # ss) =
     (if length s > 0 \<and> Trim s ''0123456789'' = [] then Some (FieldNumber (ParseUint s))
      else tagNumber ss)"

subsection \<open>Descriptors and values\<close>

text \<open>
  \<open>protoreflect.Value\<close>: the zero \<open>Value{}\<close> and the scalar variants; floating-point
  numbers are their bit patterns.
\<close>

datatype Value =
  NullValue
| ValueOfBool bool
| ValueOfInt32 "32 word"
| ValueOfInt64 "64 word"
| ValueOfUint32 "32 word"
| ValueOfUint64 "64 word"
| ValueOfFloat32 "32 word"
| ValueOfFloat64 "64 word"
| ValueOfString string
| ValueOfBytes string

datatype protoKind =
  BoolKind | EnumKind | Int32Kind | Sint32Kind | Uint32Kind | Int64Kind | Sint64Kind
| Uint64Kind | Sfixed32Kind | Fixed32Kind | FloatKind | Sfixed64Kind | Fixed64Kind
| DoubleKind | StringKind | BytesKind | MessageKind | GroupKind

datatype Cardinality = Optional | Required | Repeated

text \<open>
  What the classification reads of a field descriptor; \<open>OneofType\<close> is the name of the
  containing oneof, \<open>None\<close> for the nil oneof.
\<close>

record FieldDescriptor =
  Number :: int
  Kind :: protoKind
  Cardinality :: Cardinality
  IsWeak :: bool
  IsMap :: bool
  OneofType :: "Name option"
  Default :: Value

record MessageDescriptor =
  MessageFullName :: FullName
  Fields :: "FieldDescriptor list"

subsection \<open>Field dispatchers\<close>

text \<open>
  A \<open>fieldInfo\<close> is a struct of closures over the storage of one field. The pointer to the
  message is the state \<open>'p\<close> of the message that it addresses: the reading closures return
  a result, the writing ones the new state, and each may panic. \<open>'m\<close> is the handle that
  \<open>mutable\<close> returns.
\<close>

record ('p, 'm) fieldInfo =
  has :: "'p \<Rightarrow> panic + bool"
  get :: "'p \<Rightarrow> panic + Value"
  set_value :: "'p \<Rightarrow> Value \<Rightarrow> panic + 'p"
  clear :: "'p \<Rightarrow> panic + 'p"
  mutable :: "'p \<Rightarrow> panic + 'm \<times> 'p"

text \<open>
  The six constructors of field dispatchers are not part of the sources at hand; the
  classification takes them as parameters. A struct field or wrapper type read from a
  map that has no such key is the zero value, here \<open>None\<close>.
\<close>

record ('p, 'm) fieldInfoFuncs =
  fieldInfoForWeak :: "FieldDescriptor \<Rightarrow> StructField option \<Rightarrow> panic + ('p, 'm) fieldInfo"
  fieldInfoForOneof ::
    "FieldDescriptor \<Rightarrow> StructField option \<Rightarrow> goType option \<Rightarrow> panic + ('p, 'm) fieldInfo"
  fieldInfoForMap :: "FieldDescriptor \<Rightarrow> StructField option \<Rightarrow> panic + ('p, 'm) fieldInfo"
  fieldInfoForVector :: "FieldDescriptor \<Rightarrow> StructField option \<Rightarrow> panic + ('p, 'm) fieldInfo"
  fieldInfoForMessage :: "FieldDescriptor \<Rightarrow> StructField option \<Rightarrow> panic + ('p, 'm) fieldInfo"
  fieldInfoForScalar :: "FieldDescriptor \<Rightarrow> StructField option \<Rightarrow> panic + ('p, 'm) fieldInfo"

subsection \<open>\<open>generateFieldFuncs\<close>\<close>

text \<open>
  The three maps that the scan of the struct fields fills: struct fields by field number,
  by oneof name, and the special fields by their Go name.
\<close>

record fieldMaps =
  numbered :: "(int \<times> StructField) list"
  oneofs :: "(Name \<times> StructField) list"
  special :: "(string \<times> StructField) list"

text \<open>
  The body of \<open>fieldLoop\<close> for one struct field: a field number in the \<open>protobuf\<close> tag
  wins, then a \<open>protobuf_oneof\<close> tag, then one of the five special names; any other
  field is passed over.
\<close>

definition scanField :: "StructField \<Rightarrow> fieldMaps \<Rightarrow> fieldMaps" where
  "scanField f m =
     (case tagNumber (Split (TagGet (Tag f) ''protobuf'') CHR '','') of
        Some n \<Rightarrow> m\<lparr>numbered := AList.update n f (numbered m)\<rparr>
      | None \<Rightarrow>
          (let s = TagGet (Tag f) ''protobuf_oneof'' in
           if length s > 0 then m\<lparr>oneofs := AList.update s f (oneofs m)\<rparr>
           else if Name f \<in> set [''XXX_weak'', ''XXX_unrecognized'', ''XXX_sizecache'',
                     ''XXX_extensions'', ''XXX_InternalExtensions'']
           then m\<lparr>special := AList.update (Name f) f (special m)\<rparr>
           else m))"

text \<open>\<open>for i := 0; i < t.NumField(); i++\<close>, with \<open>f := t.Field(i)\<close>.\<close>

fun fieldLoop :: "goType \<Rightarrow> nat list \<Rightarrow> fieldMaps \<Rightarrow> panic + fieldMaps" where
  "fieldLoop t [] m = Inr m"
| "fieldLoop t (i # rest) m =
     (case Field t i of
        Inl e \<Rightarrow> Inl e
      | Inr f \<Rightarrow> fieldLoop t rest (scanField f m))"

text \<open>
  \<open>oneofLoop\<close>: for each wrapper value \<open>v\<close>, the struct type \<open>reflect.TypeOf(v).Elem()\<close> is
  entered under the field number in the tag of its first field. \<open>TypeOf\<close> of a nil
  interface is the nil type, and a method call on it panics.
\<close>

fun oneofLoop :: "goType option list \<Rightarrow> (int \<times> goType) list \<Rightarrow> panic + (int \<times> goType) list" where
  "oneofLoop [] m = Inr m"
| "oneofLoop (v # vs) m =
     (case v of
        None \<Rightarrow> Inl NilDereference
      | Some tv \<Rightarrow>
          (case Elem tv of
             Inl e \<Rightarrow> Inl e
           | Inr tf \<Rightarrow>
               (case Field tf 0 of
                  Inl e \<Rightarrow> Inl e
                | Inr f \<Rightarrow>
                    (case tagNumber (Split (TagGet (Tag f) ''protobuf'') CHR '','') of
                       Some n \<Rightarrow> oneofLoop vs (AList.update n tf m)
                     | None \<Rightarrow> oneofLoop vs m))))"

text \<open>
  The \<open>switch\<close> that classifies one field descriptor, in the order of its cases: weak,
  oneof member, map, repeated, message or group, scalar.
\<close>

definition classify ::
  "('p, 'm) fieldInfoFuncs \<Rightarrow> fieldMaps \<Rightarrow> (int \<times> goType) list \<Rightarrow> FieldDescriptor
    \<Rightarrow> panic + ('p, 'm) fieldInfo" where
  "classify F m oneofFields fd =
     (let fs = map_of (numbered m) (Number fd) in
      if IsWeak fd then fieldInfoForWeak F fd (map_of (special m) ''XXX_weak'')
      else
        (case OneofType fd of
           Some oneofName \<Rightarrow>
             fieldInfoForOneof F fd (map_of (oneofs m) oneofName)
               (map_of oneofFields (Number fd))
         | None \<Rightarrow>
             if IsMap fd then fieldInfoForMap F fd fs
             else if Cardinality fd = Repeated then fieldInfoForVector F fd fs
             else if Kind fd = MessageKind \<or> Kind fd = GroupKind then fieldInfoForMessage F fd fs
             else fieldInfoForScalar F fd fs))"

text \<open>
  The loop over the descriptor fields. It writes \<open>mi.fields\<close> entry by entry, so a panic
  leaves the entries made before it.
\<close>

fun descriptorLoop ::
  "('p, 'm) fieldInfoFuncs \<Rightarrow> fieldMaps \<Rightarrow> (int \<times> goType) list \<Rightarrow> FieldDescriptor list
    \<Rightarrow> (int \<times> ('p, 'm) fieldInfo) list \<Rightarrow> panic option \<times> (int \<times> ('p, 'm) fieldInfo) list" where
  "descriptorLoop F m oneofFields [] tbl = (None, tbl)"
| "descriptorLoop F m oneofFields (fd # fds) tbl =
     (case classify F m oneofFields fd of
        Inl e \<Rightarrow> (Some e, tbl)
      | Inr fi \<Rightarrow> descriptorLoop F m oneofFields fds (AList.update (Number fd) fi tbl))"

text \<open>
  A \<open>MessageType\<close>: the optional descriptor, the state of \<open>once\<close> (whether \<open>once.Do\<close> has
  run its function), and the fields that \<open>once\<close> protects. A nil \<open>goType\<close> or \<open>pbType\<close> is
  \<open>None\<close>; the map \<open>fields\<close> is the association list \<open>fields_map\<close>, and the nil map reads
  as the empty one. \<open>pbType\<close> keeps what \<open>ptype.NewGoMessage\<close> is given: the descriptor, and the Go type
  that the \<open>New\<close> closure captures.
\<close>

datatype pbMessageType = GoMessage "MessageDescriptor option" goType

record ('p, 'm) MessageType =
  Desc :: "MessageDescriptor option"
  once :: bool
  goType :: "goType option"
  pbType :: "pbMessageType option"
  fields_map :: "(int \<times> ('p, 'm) fieldInfo) list"

text \<open>
  \<open>generateFieldFuncs(t, md)\<close> returns the panic that stopped it, if any, and the
  \<open>MessageType\<close> as it has left it. A nil descriptor panics at \<open>md.Fields()\<close>, after
  \<open>mi.fields\<close> has been set to the empty map.
\<close>

definition generateFieldFuncs ::
  "('p, 'm) fieldInfoFuncs \<Rightarrow> goType \<Rightarrow> MessageDescriptor option \<Rightarrow> ('p, 'm) MessageType
    \<Rightarrow> panic option \<times> ('p, 'm) MessageType" where
  "generateFieldFuncs F t md mi =
     (case NumField t of
        Inl e \<Rightarrow> (Some e, mi)
      | Inr n \<Rightarrow>
          (case fieldLoop t [0..<n] \<lparr>numbered = [], oneofs = [], special = []\<rparr> of
             Inl e \<Rightarrow> (Some e, mi)
           | Inr m \<Rightarrow>
               (case (case XXX_OneofFuncs t of None \<Rightarrow> Inr [] | Some vs \<Rightarrow> oneofLoop vs []) of
                  Inl e \<Rightarrow> (Some e, mi)
                | Inr oneofFields \<Rightarrow>
                    (case md of
                       None \<Rightarrow> (Some NilDereference, mi\<lparr>fields_map := []\<rparr>)
                     | Some d \<Rightarrow>
                         (case descriptorLoop F m oneofFields (Fields d) [] of
                            (e, tbl) \<Rightarrow> (e, mi\<lparr>fields_map := tbl\<rparr>))))))"

subsection \<open>\<open>MessageType.init\<close>\<close>

text \<open>
  The argument \<open>p interface{}\<close>: the nil interface, or a dynamic type with a value. Whether
  the type asserts to \<open>pref.ProtoMessage\<close> is a property of its method set, given by
  \<open>isProtoMessage\<close>.
\<close>

datatype 'v iface = nil | Iface goType 'v

fun TypeOf :: "'v iface \<Rightarrow> goType option" where
  "TypeOf nil = None"
| "TypeOf (Iface t v) = Some t"

text \<open>
  The condition of the first \<open>if\<close> in \<open>init\<close>, with the short circuit of \<open>&&\<close>:
  \<open>t.Elem()\<close> is evaluated, and may panic, only when the kind is not \<open>Ptr\<close>.
\<close>

definition notPtrToStruct :: "goType \<Rightarrow> panic + bool" where
  "notPtrToStruct t =
     (if reflect_Kind t \<noteq> Ptr then
        (case Elem t of
           Inl e \<Rightarrow> Inl e
         | Inr te \<Rightarrow> Inr (reflect_Kind te \<noteq> Struct))
      else Inr False)"

text \<open>
  The function that \<open>init\<close> passes to \<open>once.Do\<close>. \<open>reflect.ValueOf(p).Type()\<close> panics on the
  nil interface.
\<close>

definition init_once ::
  "('p, 'm) fieldInfoFuncs \<Rightarrow> (goType \<Rightarrow> bool) \<Rightarrow> 'v iface \<Rightarrow> ('p, 'm) MessageType
    \<Rightarrow> panic option \<times> ('p, 'm) MessageType" where
  "init_once F isProtoMessage p mi =
     (case TypeOf p of
        None \<Rightarrow> (Some (ReflectPanic ''reflect: call of reflect.Value.Type on zero Value''), mi)
      | Some t \<Rightarrow>
          (case notPtrToStruct t of
             Inl e \<Rightarrow> (Some e, mi)
           | Inr True \<Rightarrow> (Some (WantStructKind t), mi)
           | Inr False \<Rightarrow>
               (let mi1 = mi\<lparr>goType := Some t\<rparr>;
                    md = Desc mi1;
                    mi2 = (if \<not> isProtoMessage t then mi1\<lparr>pbType := Some (GoMessage md t)\<rparr>
                           else mi1)
                in case Elem t of
                     Inl e \<Rightarrow> (Some e, mi2)
                   | Inr te \<Rightarrow> generateFieldFuncs F te md mi2)))"

text \<open>
  \<open>init\<close>: \<open>once.Do\<close> runs the function only the first time, and counts it as done even
  when it panics; the panic goes on to the caller. After it, the type of \<open>p\<close> is compared
  with \<open>mi.goType\<close>.
\<close>

definition init ::
  "('p, 'm) fieldInfoFuncs \<Rightarrow> (goType \<Rightarrow> bool) \<Rightarrow> 'v iface \<Rightarrow> ('p, 'm) MessageType
    \<Rightarrow> (panic + unit) \<times> ('p, 'm) MessageType" where
  "init F isProtoMessage p mi =
     (case (if once mi then (None, mi)
            else (case init_once F isProtoMessage p mi of
                    (e, mi') \<Rightarrow> (e, mi'\<lparr>once := True\<rparr>))) of
        (Some e, mi') \<Rightarrow> (Inl e, mi')
      | (None, mi') \<Rightarrow>
          (if TypeOf p \<noteq> goType mi' then (Inl (TypeMismatch (TypeOf p) (goType mi')), mi')
           else (Inr (), mi')))"

subsection \<open>The known-fields facade\<close>

text \<open>
  \<open>knownFields\<close> is a \<open>messageDataType\<close>: the pointer \<open>p\<close> to the message data and the
  message type \<open>mi\<close>. The writing methods return the facade over the changed message.
\<close>

record ('p, 'm) messageDataType =
  data_p :: 'p
  data_mi :: "('p, 'm) MessageType"

definition Has :: "('p, 'm) messageDataType \<Rightarrow> int \<Rightarrow> panic + bool" where
  "Has fs n =
     (case map_of (fields_map (data_mi fs)) n of
        Some fi \<Rightarrow> has fi (data_p fs)
      | None \<Rightarrow> Inr False)"

definition Get :: "('p, 'm) messageDataType \<Rightarrow> int \<Rightarrow> panic + Value" where
  "Get fs n =
     (case map_of (fields_map (data_mi fs)) n of
        Some fi \<Rightarrow> get fi (data_p fs)
      | None \<Rightarrow> Inr NullValue)"

definition Set :: "('p, 'm) messageDataType \<Rightarrow> int \<Rightarrow> Value \<Rightarrow> panic + ('p, 'm) messageDataType" where
  "Set fs n v =
     (case map_of (fields_map (data_mi fs)) n of
        Some fi \<Rightarrow>
          (case set_value fi (data_p fs) v of
             Inl e \<Rightarrow> Inl e
           | Inr p' \<Rightarrow> Inr (fs\<lparr>data_p := p'\<rparr>))
      | None \<Rightarrow> Inl (InvalidField n))"

definition Clear :: "('p, 'm) messageDataType \<Rightarrow> int \<Rightarrow> panic + ('p, 'm) messageDataType" where
  "Clear fs n =
     (case map_of (fields_map (data_mi fs)) n of
        Some fi \<Rightarrow>
          (case clear fi (data_p fs) of
             Inl e \<Rightarrow> Inl e
           | Inr p' \<Rightarrow> Inr (fs\<lparr>data_p := p'\<rparr>))
      | None \<Rightarrow> Inl (InvalidField n))"

definition Mutable :: "('p, 'm) messageDataType \<Rightarrow> int \<Rightarrow> panic + 'm \<times> ('p, 'm) messageDataType" where
  "Mutable fs n =
     (case map_of (fields_map (data_mi fs)) n of
        Some fi \<Rightarrow>
          (case mutable fi (data_p fs) of
             Inl e \<Rightarrow> Inl e
           | Inr (m, p') \<Rightarrow> Inr (m, fs\<lparr>data_p := p'\<rparr>))
      | None \<Rightarrow> Inl (InvalidField n))"

subsection \<open>Scalar and oneof dispatchers\<close>

text \<open>
  Modelled from the spec: the storage that a field locator addresses. The file with the
  dispatcher constructors is missing, so the record instance is taken as the sequence of
  its storage slots, one per struct field, and a locator as an offset into it. A slot is
  absent (a nil pointer or nil interface), holds a scalar, or holds the active member of
  a oneof group, tagged with its field number, and its value.
\<close>

datatype slot =
  NilSlot
| ScalarSlot Value
| OneofSlot int Value

definition loadSlot :: "slot list \<Rightarrow> nat list \<Rightarrow> panic + slot" where
  "loadSlot rec off =
     (case off of
        [i] \<Rightarrow> (if i < length rec then Inr (rec ! i)
                else Inl (ReflectPanic ''reflect: Field index out of range''))
      | _ \<Rightarrow> Inl EmbeddedStructs)"

definition storeSlot :: "slot list \<Rightarrow> nat list \<Rightarrow> slot \<Rightarrow> panic + slot list" where
  "storeSlot rec off s =
     (case off of
        [i] \<Rightarrow> (if i < length rec then Inr (rec[i := s])
                else Inl (ReflectPanic ''reflect: Field index out of range''))
      | _ \<Rightarrow> Inl EmbeddedStructs)"

text \<open>
  Modelled from the spec: the scalar dispatcher with explicit presence (section 4.2).
  \<open>has\<close> is true iff the field was set; \<open>get\<close> returns the declared default when \<open>has\<close> is
  false; \<open>set\<close> stores the exact value; \<open>clear\<close> resets to absent; \<open>mutable\<close> is a usage
  error. A slot that is not a scalar slot is a type mismatch.
\<close>

definition scalarInfo :: "FieldDescriptor \<Rightarrow> nat list \<Rightarrow> (slot list, 'm) fieldInfo" where
  "scalarInfo fd off =
     \<lparr>has = (\<lambda>rec. case loadSlot rec off of Inl e \<Rightarrow> Inl e | Inr s \<Rightarrow> Inr (s \<noteq> NilSlot)),
      get = (\<lambda>rec.
        case loadSlot rec off of
          Inl e \<Rightarrow> Inl e
        | Inr NilSlot \<Rightarrow> Inr (Default fd)
        | Inr (ScalarSlot v) \<Rightarrow> Inr v
        | Inr (OneofSlot n v) \<Rightarrow> Inl (UsageError ''invalid type'')),
      set_value = (\<lambda>rec v. storeSlot rec off (ScalarSlot v)),
      clear = (\<lambda>rec. storeSlot rec off NilSlot),
      mutable = (\<lambda>rec. Inl (UsageError ''mutable is not applicable to a scalar field''))\<rparr>"

text \<open>
  Modelled from the spec: the oneof-member dispatcher (section 4.2). The members of a
  group share one slot. \<open>has\<close> is true iff this member is the active one; \<open>set\<close> makes it
  active, which deactivates every other member; \<open>get\<close> on an inactive member returns the
  default of the field; \<open>clear\<close> empties the slot if this member is active and does
  nothing otherwise.
\<close>

definition oneofInfo :: "FieldDescriptor \<Rightarrow> nat list \<Rightarrow> (slot list, 'm) fieldInfo" where
  "oneofInfo fd off =
     \<lparr>has = (\<lambda>rec.
        case loadSlot rec off of
          Inl e \<Rightarrow> Inl e
        | Inr (OneofSlot n v) \<Rightarrow> Inr (n = Number fd)
        | Inr s \<Rightarrow> Inr False),
      get = (\<lambda>rec.
        case loadSlot rec off of
          Inl e \<Rightarrow> Inl e
        | Inr (OneofSlot n v) \<Rightarrow> Inr (if n = Number fd then v else Default fd)
        | Inr s \<Rightarrow> Inr (Default fd)),
      set_value = (\<lambda>rec v. storeSlot rec off (OneofSlot (Number fd) v)),
      clear = (\<lambda>rec.
        case loadSlot rec off of
          Inl e \<Rightarrow> Inl e
        | Inr (OneofSlot n v) \<Rightarrow> (if n = Number fd then storeSlot rec off NilSlot else Inr rec)
        | Inr s \<Rightarrow> Inr rec),
      mutable = (\<lambda>rec. Inl (UsageError ''mutable is not applicable to a scalar field''))\<rparr>"

text \<open>
  Modelled from the spec: the two constructors, bound to the storage slot of the field
  through \<open>offsetOf\<close>. The zero struct field of a field number without storage has the
  nil index sequence, which \<open>offsetOf\<close> rejects.
\<close>

definition offsetOfField :: "StructField option \<Rightarrow> panic + nat list" where
  "offsetOfField fs = (case fs of None \<Rightarrow> Inl EmbeddedStructs | Some f \<Rightarrow> offsetOf f)"

definition fieldInfoForScalar_spec ::
  "FieldDescriptor \<Rightarrow> StructField option \<Rightarrow> panic + (slot list, 'm) fieldInfo" where
  "fieldInfoForScalar_spec fd fs =
     (case offsetOfField fs of Inl e \<Rightarrow> Inl e | Inr off \<Rightarrow> Inr (scalarInfo fd off))"

definition fieldInfoForOneof_spec ::
  "FieldDescriptor \<Rightarrow> StructField option \<Rightarrow> goType option \<Rightarrow> panic + (slot list, 'm) fieldInfo" where
  "fieldInfoForOneof_spec fd fs ot =
     (case offsetOfField fs of Inl e \<Rightarrow> Inl e | Inr off \<Rightarrow> Inr (oneofInfo fd off))"

text \<open>
  The constructors handed to the classification where a concrete set is needed: the two
  above, and a usage error for the kinds of field that are not modelled.
\<close>

definition specFuncs :: "(slot list, 'm) fieldInfoFuncs" where
  "specFuncs =
     \<lparr>fieldInfoForWeak = (\<lambda>fd fs. Inl (UsageError ''weak fields unsupported'')),
      fieldInfoForOneof = fieldInfoForOneof_spec,
      fieldInfoForMap = (\<lambda>fd fs. Inl (UsageError ''not modelled'')),
      fieldInfoForVector = (\<lambda>fd fs. Inl (UsageError ''not modelled'')),
      fieldInfoForMessage = (\<lambda>fd fs. Inl (UsageError ''not modelled'')),
      fieldInfoForScalar = fieldInfoForScalar_spec\<rparr>"

section \<open>Properties of the registry\<close>

subsection \<open>The binary search decides membership in a sorted list\<close>

lemma Search_loop_unfold_ge:
  "\<not> i < j \<Longrightarrow> Search_loop i j f = i"
  by (subst Search_loop.simps) simp

lemma Search_loop_unfold_lo:
  "i < j \<Longrightarrow> f ((i + j) div 2) \<Longrightarrow> Search_loop i j f = Search_loop i ((i + j) div 2) f"
  by (subst Search_loop.simps) (simp add: Let_def)

lemma Search_loop_unfold_hi:
  "i < j \<Longrightarrow> \<not> f ((i + j) div 2) \<Longrightarrow> Search_loop i j f = Search_loop ((i + j) div 2 + 1) j f"
  by (subst Search_loop.simps) (simp add: Let_def)

definition search_inv :: "nat \<Rightarrow> (nat \<Rightarrow> bool) \<Rightarrow> nat \<Rightarrow> nat \<Rightarrow> bool" where
  "search_inv n f i j \<longleftrightarrow>
     i \<le> j \<and> j \<le> n \<and> (\<forall>k<i. \<not> f k) \<and> (\<forall>k. j \<le> k \<and> k < n \<longrightarrow> f k)"

lemma Search_loop_spec:
  "(\<And>a b. a \<le> b \<Longrightarrow> b < n \<Longrightarrow> f a \<Longrightarrow> f b) \<Longrightarrow> search_inv n f i j
     \<Longrightarrow> search_inv n f (Search_loop i j f) (Search_loop i j f)"
proof (induction i j f rule: Search_loop.induct)
  case (1 i j f)
  note mono = "1.prems"(1) and inv = "1.prems"(2)
  show ?case
  proof (cases "i < j")
    case False
    with inv have "i = j" by (simp add: search_inv_def)
    with inv False show ?thesis by (simp add: Search_loop_unfold_ge)
  next
    case True
    define h where "h = (i + j) div 2"
    have hb: "i \<le> h" "h < j" using True by (simp_all add: h_def)
    have hn: "h < n" using hb inv by (simp add: search_inv_def)
    show ?thesis
    proof (cases "f h")
      case fh: True
      have up: "\<And>k. h \<le> k \<Longrightarrow> k < n \<Longrightarrow> f k"
        using mono fh by blast
      have inv': "search_inv n f i h"
        using inv hb hn up by (simp add: search_inv_def)
      have "search_inv n f (Search_loop i h f) (Search_loop i h f)"
        using "1.IH"(2) [OF True h_def _ mono inv'] fh by simp
      moreover have "Search_loop i j f = Search_loop i h f"
        using True fh unfolding h_def by (rule Search_loop_unfold_lo)
      ultimately show ?thesis by simp
    next
      case nfh: False
      have lo: "\<And>k. k < h + 1 \<Longrightarrow> \<not> f k"
      proof
        fix k assume "k < h + 1" "f k"
        then have "k \<le> h" by simp
        from mono [OF this hn \<open>f k\<close>] nfh show False by simp
      qed
      have inv': "search_inv n f (h + 1) j"
        using inv hb lo by (simp add: search_inv_def)
      have "search_inv n f (Search_loop (h + 1) j f) (Search_loop (h + 1) j f)"
        using "1.IH"(1) [OF True h_def nfh mono inv'] .
      moreover have "Search_loop i j f = Search_loop (h + 1) j f"
        using True nfh unfolding h_def by (rule Search_loop_unfold_hi)
      ultimately show ?thesis by simp
    qed
  qed
qed

lemma Search_sorted_member:
  assumes "sorted cs"
  shows "(Search (length cs) (\<lambda>i. s \<le> cs ! i) < length cs
          \<and> cs ! Search (length cs) (\<lambda>i. s \<le> cs ! i) = s) \<longleftrightarrow> s \<in> set cs"
proof -
  let ?f = "\<lambda>i. s \<le> cs ! i"
  define r where "r = Search (length cs) ?f"
  have mono: "\<And>a b. a \<le> b \<Longrightarrow> b < length cs \<Longrightarrow> ?f a \<Longrightarrow> ?f b"
  proof -
    fix a b assume h: "a \<le> b" "b < length cs" "s \<le> cs ! a"
    then have "cs ! a \<le> cs ! b" using assms by (simp add: sorted_iff_nth_mono)
    with h(3) show "s \<le> cs ! b" by (rule order_trans)
  qed
  have "search_inv (length cs) ?f 0 (length cs)" by (auto simp: search_inv_def)
  from Search_loop_spec [of "length cs" ?f 0 "length cs", OF mono this]
  have spec: "search_inv (length cs) ?f r r" by (simp add: r_def Search_def)
  have "(r < length cs \<and> cs ! r = s) \<longleftrightarrow> s \<in> set cs"
  proof
    assume "r < length cs \<and> cs ! r = s"
    then show "s \<in> set cs" by (metis nth_mem)
  next
    assume "s \<in> set cs"
    then obtain k where k: "k < length cs" "cs ! k = s" by (auto simp: in_set_conv_nth)
    have rk: "r \<le> k"
    proof (rule ccontr)
      assume "\<not> r \<le> k"
      then have "k < r" by simp
      with spec have "\<not> s \<le> cs ! k" by (simp add: search_inv_def)
      with k show False by simp
    qed
    with k have rl: "r < length cs" by simp
    with spec have ge: "s \<le> cs ! r" by (simp add: search_inv_def)
    have "cs ! r \<le> cs ! k" using assms rk k(1) by (simp add: sorted_iff_nth_mono)
    with ge k have "cs ! r = s" by simp
    with rl show "r < length cs \<and> cs ! r = s" by simp
  qed
  then show ?thesis by (simp add: r_def)
qed

lemma removeName_sorted:
  "sorted cs \<Longrightarrow> removeName cs s sbs = (if s \<in> set cs then sbs else AList.delete s sbs)"
  using Search_sorted_member [of cs s] by (auto simp: removeName_def Let_def)

subsection \<open>Declaring and removing names\<close>

lemma update_absent: "map_of al k = None \<Longrightarrow> AList.update k v al = al @ [(k, v)]"
  by (induction al) auto

lemma fold_declareName_distinct:
  "distinct names \<Longrightarrow> fold declareName names (sbs, cs) =
     (sbs @ map (\<lambda>n. (n, notProtoPackage)) (filter (\<lambda>n. map_of sbs n = None) names),
      cs @ filter (\<lambda>n. map_of sbs n \<noteq> None) names)"
proof (induction names arbitrary: sbs cs)
  case Nil
  show ?case by simp
next
  case (Cons a names)
  have d: "distinct names" and a: "a \<notin> set names" using Cons.prems by simp_all
  show ?case
  proof (cases "map_of sbs a = None")
    case True
    have same: "\<And>n. n \<in> set names \<Longrightarrow> (map_of (sbs @ [(a, notProtoPackage)]) n = None) = (map_of sbs n = None)"
      using a by (auto simp: map_add_def split: option.splits)
    have f1: "filter (\<lambda>n. map_of (sbs @ [(a, notProtoPackage)]) n = None) names = filter (\<lambda>n. map_of sbs n = None) names"
      by (rule filter_cong [OF refl]) (rule same)
    have f2: "filter (\<lambda>n. map_of (sbs @ [(a, notProtoPackage)]) n \<noteq> None) names = filter (\<lambda>n. map_of sbs n \<noteq> None) names"
      by (rule filter_cong [OF refl]) (simp only: same)
    show ?thesis
      using True Cons.IH [OF d, of "sbs @ [(a, notProtoPackage)]" cs] f1 f2
      by (simp add: declareName_def update_absent)
  next
    case False
    then show ?thesis
      using Cons.IH [OF d, of sbs "cs @ [a]"] by (auto simp: declareName_def)
  qed
qed

lemma fold_removeName_sorted:
  "sorted cs \<Longrightarrow> fold (removeName cs) names sbs =
     filter (\<lambda>kv. fst kv \<notin> set names \<or> fst kv \<in> set cs) sbs"
proof (induction names arbitrary: sbs)
  case Nil
  show ?case by simp
next
  case (Cons a names)
  show ?case
  proof (cases "a \<in> set cs")
    case True
    then show ?thesis
      using Cons.IH [OF Cons.prems, of sbs] Cons.prems
      by (auto simp: removeName_sorted intro: filter_cong)
  next
    case False
    have "AList.delete a sbs = filter (\<lambda>kv. fst kv \<noteq> a) sbs"
      by (auto simp: AList.delete_eq case_prod_unfold intro: filter_cong)
    then show ?thesis
      using False Cons.IH [OF Cons.prems, of "AList.delete a sbs"] Cons.prems
      by (auto simp: removeName_sorted intro: filter_cong)
  qed
qed

lemma map_of_None_iff: "map_of al k = None \<longleftrightarrow> k \<notin> fst ` set al"
  by (simp add: map_of_eq_None_iff)

lemma rollback_restores:
  assumes "distinct names"
  shows "filter (\<lambda>kv. fst kv \<notin> set names \<or> fst kv \<in> set (filter (\<lambda>n. map_of sbs n \<noteq> None) names))
           (sbs @ map (\<lambda>n. (n, notProtoPackage)) (filter (\<lambda>n. map_of sbs n = None) names)) = sbs"
proof -
  have 1: "filter (\<lambda>kv. fst kv \<notin> set names \<or> fst kv \<in> set (filter (\<lambda>n. map_of sbs n \<noteq> None) names)) sbs = sbs"
    by (rule filter_True) (auto simp: map_of_None_iff)
  have 2: "filter (\<lambda>kv. fst kv \<notin> set names \<or> fst kv \<in> set (filter (\<lambda>n. map_of sbs n \<noteq> None) names))
            (map (\<lambda>n. (n, notProtoPackage)) (filter (\<lambda>n. map_of sbs n = None) names)) = []"
    by (auto simp: filter_empty_conv)
  show ?thesis using 1 2 by simp
qed

lemma registerDeclarations_distinct:
  assumes "distinct (topLevelDeclarations fd)"
  shows "registerDeclarations fd root =
     (if \<exists>n \<in> set (topLevelDeclarations fd). map_of (subs root) n \<noteq> None
      then (root, Some (Append (Package fd)
              (hd (sort (filter (\<lambda>n. map_of (subs root) n \<noteq> None) (topLevelDeclarations fd))))))
      else (FilesByPackage (files root @ [fd])
              (subs root @ map (\<lambda>n. (n, notProtoPackage)) (topLevelDeclarations fd)), None))"
proof -
  let ?names = "topLevelDeclarations fd"
  let ?cs = "filter (\<lambda>n. map_of (subs root) n \<noteq> None) ?names"
  have st: "rangeTopLevelDeclarations fd declareName (subs root, []) =
     (subs root @ map (\<lambda>n. (n, notProtoPackage)) (filter (\<lambda>n. map_of (subs root) n = None) ?names), ?cs)"
    using fold_declareName_distinct [OF assms, of "subs root" "[]"]
    by (simp add: rangeTopLevelDeclarations_def)
  show ?thesis
  proof (cases "\<exists>n \<in> set ?names. map_of (subs root) n \<noteq> None")
    case True
    then have ne: "?cs \<noteq> []" by (auto simp: filter_empty_conv)
    have rb: "rangeTopLevelDeclarations fd (removeName (sort ?cs))
            (subs root @ map (\<lambda>n. (n, notProtoPackage)) (filter (\<lambda>n. map_of (subs root) n = None) ?names))
          = subs root"
      using rollback_restores [OF assms, of "subs root"]
      by (simp add: rangeTopLevelDeclarations_def fold_removeName_sorted)
    show ?thesis
      using True ne st rb by (simp add: registerDeclarations_def Let_def)
  next
    case False
    then have e: "?cs = []" and all: "filter (\<lambda>n. map_of (subs root) n = None) ?names = ?names"
      by (auto simp: filter_empty_conv)
    show ?thesis
      using False st e all by (simp add: registerDeclarations_def)
  qed
qed

subsection \<open>The package walk\<close>

lemma registerPackage_Nil: "registerPackage fd [] root = registerDeclarations fd root"
  by (simp add: registerPackage.simps [of fd "[]" root])

lemma registerPackage_step:
  "pkg \<noteq> [] \<Longrightarrow> splitPrefix pkg = (prefix, pkg') \<Longrightarrow>
   registerPackage fd pkg root =
     (case map_of (subs root) prefix of
        None \<Rightarrow>
          (case registerPackage fd pkg' (FilesByPackage [] []) of
             (nextRoot, err) \<Rightarrow>
               (FilesByPackage (files root) (AList.update prefix (Sub nextRoot) (subs root)), err))
      | Some notProtoPackage \<Rightarrow>
          (root, Some (TrimSuffix (TrimSuffix (Package fd) pkg') ''.''))
      | Some (Sub nextRoot) \<Rightarrow>
          (case registerPackage fd pkg' nextRoot of
             (nextRoot', err) \<Rightarrow>
               (FilesByPackage (files root) (AList.update prefix (Sub nextRoot') (subs root)), err)))"
  by (simp add: registerPackage.simps [of fd pkg root])

lemma walkPackage_None: "walkPackage pkg None = None"
  by (simp add: walkPackage.simps [of pkg None])

lemma walkPackage_Nil: "walkPackage [] root = root"
  by (simp add: walkPackage.simps [of "[]" root] split: option.splits)

lemma walkPackage_step:
  "pkg \<noteq> [] \<Longrightarrow> splitPrefix pkg = (prefix, pkg') \<Longrightarrow>
   walkPackage pkg (Some sp) = walkPackage pkg' (map_of (subsOf sp) prefix)"
  by (simp add: walkPackage.simps [of pkg "Some sp"])

lemma registerPackage_fresh:
  "distinct (topLevelDeclarations fd) \<Longrightarrow> subs root = [] \<Longrightarrow> snd (registerPackage fd pkg root) = None"
proof (induction fd pkg root rule: registerPackage.induct)
  case (1 fd pkg root)
  show ?case
  proof (cases "length pkg > 0")
    case False
    then show ?thesis
      using "1.prems" by (simp add: registerPackage_Nil registerDeclarations_distinct)
  next
    case True
    obtain prefix pkg' where sp: "splitPrefix pkg = (prefix, pkg')" by (cases "splitPrefix pkg")
    have "snd (registerPackage fd pkg' (FilesByPackage [] [])) = None"
      using "1.IH"(1) [OF True sp [symmetric] _ "1.prems"(1)] "1.prems"(2) by simp
    then show ?thesis
      using True sp "1.prems"(2)
      by (auto simp: registerPackage_step split: prod.splits)
  qed
qed

lemma registerPackage_atomic:
  "distinct (topLevelDeclarations fd) \<Longrightarrow> registerPackage fd pkg root = (root', Some name) \<Longrightarrow> root' = root"
proof (induction fd pkg root arbitrary: root' name rule: registerPackage.induct)
  case (1 fd pkg root)
  note dist = "1.prems"(1) and res = "1.prems"(2)
  show ?case
  proof (cases "length pkg > 0")
    case False
    then show ?thesis
      using res dist
      by (simp add: registerPackage_Nil registerDeclarations_distinct split: if_splits)
  next
    case True
    obtain prefix pkg' where sp: "splitPrefix pkg = (prefix, pkg')" by (cases "splitPrefix pkg")
    show ?thesis
    proof (cases "map_of (subs root) prefix")
      case None
      have "snd (registerPackage fd pkg' (FilesByPackage [] [])) = None"
        by (rule registerPackage_fresh [OF dist]) simp
      then show ?thesis
        using True sp None res
        by (simp add: registerPackage_step split: prod.splits)
    next
      case (Some sp')
      show ?thesis
      proof (cases sp')
        case notProtoPackage
        then show ?thesis
          using True sp Some res by (simp add: registerPackage_step)
      next
        case (Sub nextRoot)
        obtain nextRoot' err where r: "registerPackage fd pkg' nextRoot = (nextRoot', err)"
          by (cases "registerPackage fd pkg' nextRoot")
        have err: "err = Some name" and root': "root' = FilesByPackage (files root) (AList.update prefix (Sub nextRoot') (subs root))"
          using True sp Some Sub res r by (simp_all add: registerPackage_step)
        have "nextRoot' = nextRoot"
          using "1.IH"(2) [OF True sp [symmetric] Some Sub dist] r err by simp
        then show ?thesis
          using root' Some Sub by (simp add: update_triv)
      qed
    qed
  qed
qed

lemma registerPackage_collision:
  "distinct (topLevelDeclarations fd)
   \<Longrightarrow> walkPackage pkg (Some (Sub root)) = Some (Sub node)
   \<Longrightarrow> n \<in> set (topLevelDeclarations fd) \<Longrightarrow> map_of (subs node) n \<noteq> None
   \<Longrightarrow> snd (registerPackage fd pkg root) \<noteq> None"
proof (induction fd pkg root rule: registerPackage.induct)
  case (1 fd pkg root)
  note dist = "1.prems"(1) and walk = "1.prems"(2) and n = "1.prems"(3,4)
  show ?case
  proof (cases "length pkg > 0")
    case False
    then have "node = root" using walk by (simp add: walkPackage_Nil)
    then show ?thesis
      using False dist n
      by (auto simp: registerPackage_Nil registerDeclarations_distinct)
  next
    case True
    obtain prefix pkg' where sp: "splitPrefix pkg = (prefix, pkg')" by (cases "splitPrefix pkg")
    have w: "walkPackage pkg' (map_of (subs root) prefix) = Some (Sub node)"
      using walk True sp by (simp add: walkPackage_step)
    show ?thesis
    proof (cases "map_of (subs root) prefix")
      case None
      then show ?thesis using w by (simp add: walkPackage_None)
    next
      case (Some sp')
      show ?thesis
      proof (cases sp')
        case notProtoPackage
        then show ?thesis
          using True sp Some by (simp add: registerPackage_step)
      next
        case (Sub nextRoot)
        have "snd (registerPackage fd pkg' nextRoot) \<noteq> None"
          using "1.IH"(2) [OF True sp [symmetric] Some Sub dist _ n] w Some Sub by simp
        then show ?thesis
          using True sp Some Sub
          by (auto simp: registerPackage_step split: prod.splits)
      qed
    qed
  qed
qed

subsection \<open>Atomic rejection\<close>

lemma registerFile_conflict_unchanged:
  assumes "distinct (topLevelDeclarations fd)"
    and "registerFile fd (r, firstErr) = (r', firstErr')" and "firstErr' \<noteq> firstErr"
  shows "r' = r"
proof (cases "IsPlaceholder fd")
  case True
  then show ?thesis using assms(2) by (simp add: registerFile_def)
next
  case False
  obtain root err where rp: "registerPackage fd (Package fd) (filesByPackage r) = (root, err)"
    by (cases "registerPackage fd (Package fd) (filesByPackage r)")
  show ?thesis
  proof (cases err)
    case None
    then show ?thesis using assms(2,3) False rp by (simp add: registerFile_def)
  next
    case (Some name)
    then have "root = filesByPackage r"
      using registerPackage_atomic [OF assms(1)] rp by simp
    then show ?thesis using assms(2) False rp Some by (auto simp: registerFile_def)
  qed
qed

text \<open>
  Claim C1, as amended. \<open>Register\<close> is atomic per file for the files that the registry is
  meant for, those whose top-level declarations have pairwise distinct names: whenever
  the call on such a file returns an error, the registry (the package tree and the path
  index) is exactly what it was before; and when the file is not a placeholder and one of
  its declarations is already a declared name or a sub-package segment of its package
  node, the call does return a name-conflict error for that file and leaves the registry
  as it was.
\<close>

theorem Register_rejects_colliding_file_atomically:
  assumes "\<not> IsPlaceholder fd" and "distinct (topLevelDeclarations fd)"
  shows "(\<forall>r' e. Register r [fd] = (r', Some e) \<longrightarrow> r' = r)
       \<and> (\<forall>node n. walkPackage (Package fd) (Some (Sub (filesByPackage r))) = Some (Sub node)
              \<and> n \<in> set (topLevelDeclarations fd) \<and> map_of (subs node) n \<noteq> None
            \<longrightarrow> (\<exists>name. Register r [fd] = (r, Some (NameConflict (Path fd) name))))"
proof (intro conjI allI impI)
  fix r' e
  assume "Register r [fd] = (r', Some e)"
  then have "registerFile fd (r, None) = (r', Some e)" by (simp add: Register_def)
  from registerFile_conflict_unchanged [OF assms(2) this] show "r' = r" by simp
next
  fix node n
  assume h: "walkPackage (Package fd) (Some (Sub (filesByPackage r))) = Some (Sub node)
              \<and> n \<in> set (topLevelDeclarations fd) \<and> map_of (subs node) n \<noteq> None"
  obtain root err where rp: "registerPackage fd (Package fd) (filesByPackage r) = (root, err)"
    by (cases "registerPackage fd (Package fd) (filesByPackage r)")
  from h registerPackage_collision [OF assms(2), of "Package fd" "filesByPackage r" node n] rp
  obtain name where err: "err = Some name" by auto
  with rp registerPackage_atomic [OF assms(2)] have "root = filesByPackage r" by simp
  with rp err assms(1) have "Register r [fd] = (r, Some (NameConflict (Path fd) name))"
    by (simp add: Register_def registerFile_def)
  then show "\<exists>name. Register r [fd] = (r, Some (NameConflict (Path fd) name))" ..
qed

text \<open>The equations that evaluate the registry functions on concrete arguments.\<close>

lemmas eval_registry = Register_def registerFile_def newFiles_def registerPackage.simps splitPrefix_def registerDeclarations_def rangeTopLevelDeclarations_def topLevelDeclarations_def declareName_def removeName_def Search_def Search_loop.simps appendByPath_def Append_def walkPackage.simps

text \<open>
  Claim C1 as stated, for every file, fails on a file that declares a name twice: with
  \<open>M\<close> registered in package \<open>p\<close>, a file declaring the messages \<open>M\<close>, \<open>N\<close> and the service
  \<open>N\<close> is rejected over \<open>p.M\<close>, but \<open>N\<close> is in \<open>conflicts\<close> too, so the rollback keeps the
  sentinel that the file itself has entered for \<open>N\<close>.
\<close>

theorem Register_duplicate_names_counterexample:
  "map_of (subs (FilesByPackage
                [\<lparr>Path = ''f1'', Package = ''p'', IsPlaceholder = False, Enums = [],
                   Messages = [''M''], Extensions = [], Services = []\<rparr>]
                [(''M'', notProtoPackage)])) ''M'' \<noteq> None
   \<and> snd (Register
          \<lparr>filesByPackage = FilesByPackage []
             [(''p'', Sub (FilesByPackage
                [\<lparr>Path = ''f1'', Package = ''p'', IsPlaceholder = False, Enums = [],
                   Messages = [''M''], Extensions = [], Services = []\<rparr>]
                [(''M'', notProtoPackage)]))],
           filesByPath =
             [(''f1'', [\<lparr>Path = ''f1'', Package = ''p'', IsPlaceholder = False, Enums = [],
                   Messages = [''M''], Extensions = [], Services = []\<rparr>])]\<rparr>
          [\<lparr>Path = ''f2'', Package = ''p'', IsPlaceholder = False, Enums = [],
             Messages = [''M'', ''N''], Extensions = [], Services = [''N'']\<rparr>])
     = Some (NameConflict ''f2'' ''p.M'')
   \<and> fst (Register
          \<lparr>filesByPackage = FilesByPackage []
             [(''p'', Sub (FilesByPackage
                [\<lparr>Path = ''f1'', Package = ''p'', IsPlaceholder = False, Enums = [],
                   Messages = [''M''], Extensions = [], Services = []\<rparr>]
                [(''M'', notProtoPackage)]))],
           filesByPath =
             [(''f1'', [\<lparr>Path = ''f1'', Package = ''p'', IsPlaceholder = False, Enums = [],
                   Messages = [''M''], Extensions = [], Services = []\<rparr>])]\<rparr>
          [\<lparr>Path = ''f2'', Package = ''p'', IsPlaceholder = False, Enums = [],
             Messages = [''M'', ''N''], Extensions = [], Services = [''N'']\<rparr>])
     \<noteq> \<lparr>filesByPackage = FilesByPackage []
             [(''p'', Sub (FilesByPackage
                [\<lparr>Path = ''f1'', Package = ''p'', IsPlaceholder = False, Enums = [],
                   Messages = [''M''], Extensions = [], Services = []\<rparr>]
                [(''M'', notProtoPackage)]))],
           filesByPath =
             [(''f1'', [\<lparr>Path = ''f1'', Package = ''p'', IsPlaceholder = False, Enums = [],
                   Messages = [''M''], Extensions = [], Services = []\<rparr>])]\<rparr>
   \<and> filesByPackage (fst (Register
          \<lparr>filesByPackage = FilesByPackage []
             [(''p'', Sub (FilesByPackage
                [\<lparr>Path = ''f1'', Package = ''p'', IsPlaceholder = False, Enums = [],
                   Messages = [''M''], Extensions = [], Services = []\<rparr>]
                [(''M'', notProtoPackage)]))],
           filesByPath =
             [(''f1'', [\<lparr>Path = ''f1'', Package = ''p'', IsPlaceholder = False, Enums = [],
                   Messages = [''M''], Extensions = [], Services = []\<rparr>])]\<rparr>
          [\<lparr>Path = ''f2'', Package = ''p'', IsPlaceholder = False, Enums = [],
             Messages = [''M'', ''N''], Extensions = [], Services = [''N'']\<rparr>]))
     = FilesByPackage []
         [(''p'', Sub (FilesByPackage
            [\<lparr>Path = ''f1'', Package = ''p'', IsPlaceholder = False, Enums = [],
               Messages = [''M''], Extensions = [], Services = []\<rparr>]
            [(''M'', notProtoPackage), (''N'', notProtoPackage)]))]"
  by (simp add: eval_registry)

text \<open>
  The theorem at a registry that holds \<open>p.M\<close> and a file declaring \<open>Q\<close>, \<open>M\<close>, \<open>R\<close> in \<open>p\<close>.
\<close>

theorem Register_rejects_colliding_file_atomically_witness:
  "\<not> IsPlaceholder \<lparr>Path = ''f3'', Package = ''p'', IsPlaceholder = False, Enums = [],
             Messages = [''Q'', ''M'', ''R''], Extensions = [], Services = []\<rparr>
   \<and> distinct (topLevelDeclarations \<lparr>Path = ''f3'', Package = ''p'', IsPlaceholder = False, Enums = [],
             Messages = [''Q'', ''M'', ''R''], Extensions = [], Services = []\<rparr>)
   \<and> walkPackage ''p'' (Some (Sub (filesByPackage \<lparr>filesByPackage = FilesByPackage []
             [(''p'', Sub (FilesByPackage
                [\<lparr>Path = ''f1'', Package = ''p'', IsPlaceholder = False, Enums = [],
                   Messages = [''M''], Extensions = [], Services = []\<rparr>]
                [(''M'', notProtoPackage)]))],
           filesByPath =
             [(''f1'', [\<lparr>Path = ''f1'', Package = ''p'', IsPlaceholder = False, Enums = [],
                   Messages = [''M''], Extensions = [], Services = []\<rparr>])]\<rparr>)))
       = Some (Sub (FilesByPackage
                [\<lparr>Path = ''f1'', Package = ''p'', IsPlaceholder = False, Enums = [],
                   Messages = [''M''], Extensions = [], Services = []\<rparr>]
                [(''M'', notProtoPackage)]))
   \<and> map_of (subs (FilesByPackage
                [\<lparr>Path = ''f1'', Package = ''p'', IsPlaceholder = False, Enums = [],
                   Messages = [''M''], Extensions = [], Services = []\<rparr>]
                [(''M'', notProtoPackage)])) ''M'' \<noteq> None
   \<and> Register \<lparr>filesByPackage = FilesByPackage []
             [(''p'', Sub (FilesByPackage
                [\<lparr>Path = ''f1'', Package = ''p'', IsPlaceholder = False, Enums = [],
                   Messages = [''M''], Extensions = [], Services = []\<rparr>]
                [(''M'', notProtoPackage)]))],
           filesByPath =
             [(''f1'', [\<lparr>Path = ''f1'', Package = ''p'', IsPlaceholder = False, Enums = [],
                   Messages = [''M''], Extensions = [], Services = []\<rparr>])]\<rparr> [\<lparr>Path = ''f3'', Package = ''p'', IsPlaceholder = False, Enums = [],
             Messages = [''Q'', ''M'', ''R''], Extensions = [], Services = []\<rparr>]
       = (\<lparr>filesByPackage = FilesByPackage []
             [(''p'', Sub (FilesByPackage
                [\<lparr>Path = ''f1'', Package = ''p'', IsPlaceholder = False, Enums = [],
                   Messages = [''M''], Extensions = [], Services = []\<rparr>]
                [(''M'', notProtoPackage)]))],
           filesByPath =
             [(''f1'', [\<lparr>Path = ''f1'', Package = ''p'', IsPlaceholder = False, Enums = [],
                   Messages = [''M''], Extensions = [], Services = []\<rparr>])]\<rparr>, Some (NameConflict ''f3'' ''p.M''))"
proof -
  let ?F = "\<lparr>Path = ''f3'', Package = ''p'', IsPlaceholder = False, Enums = [],
             Messages = [''Q'', ''M'', ''R''], Extensions = [], Services = []\<rparr>"
  let ?R = "\<lparr>filesByPackage = FilesByPackage []
             [(''p'', Sub (FilesByPackage
                [\<lparr>Path = ''f1'', Package = ''p'', IsPlaceholder = False, Enums = [],
                   Messages = [''M''], Extensions = [], Services = []\<rparr>]
                [(''M'', notProtoPackage)]))],
           filesByPath =
             [(''f1'', [\<lparr>Path = ''f1'', Package = ''p'', IsPlaceholder = False, Enums = [],
                   Messages = [''M''], Extensions = [], Services = []\<rparr>])]\<rparr>"
  have h1: "\<not> IsPlaceholder ?F" and h2: "distinct (topLevelDeclarations ?F)"
    by (simp_all add: topLevelDeclarations_def)
  have r: "snd (Register ?R [?F]) = Some (NameConflict ''f3'' ''p.M'')"
    by (simp add: eval_registry)
  have w: "walkPackage ''p'' (Some (Sub (filesByPackage ?R))) = Some (Sub (FilesByPackage
                [\<lparr>Path = ''f1'', Package = ''p'', IsPlaceholder = False, Enums = [],
                   Messages = [''M''], Extensions = [], Services = []\<rparr>]
                [(''M'', notProtoPackage)]))"
    by (simp add: eval_registry)
  from Register_rejects_colliding_file_atomically [OF h1 h2, of ?R] r
  have "fst (Register ?R [?F]) = ?R"
    by (metis prod.collapse)
  with r h1 h2 w show ?thesis by (simp add: prod_eq_iff)
qed

subsection \<open>Lookup\<close>

lemma rangeList_record_call: "rangeList record_call fds acc = (True, acc @ fds)"
  by (induction fds arbitrary: acc) (simp_all add: record_call_def)

lemma rangeFiles_subs_record_call:
  assumes "\<And>k sp acc. (k, sp) \<in> set sbs \<Longrightarrow>
     rangeFiles_sub record_call sp acc = (True, acc @ snd (rangeFiles_sub record_call sp []))"
  shows "rangeFiles_subs record_call sbs acc
     = (True, acc @ concat (map (\<lambda>ksp. snd (rangeFiles_sub record_call (snd ksp) [])) sbs))"
  using assms
proof (induction sbs arbitrary: acc)
  case Nil
  show ?case by simp
next
  case (Cons ksp sbs)
  obtain k sp where ksp: "ksp = (k, sp)" by (cases ksp)
  have 1: "rangeFiles_sub record_call sp acc = (True, acc @ snd (rangeFiles_sub record_call sp []))"
    by (rule Cons.prems [of k]) (simp add: ksp)
  have 2: "rangeFiles_subs record_call sbs (acc @ snd (rangeFiles_sub record_call sp []))
     = (True, (acc @ snd (rangeFiles_sub record_call sp []))
          @ concat (map (\<lambda>ksp. snd (rangeFiles_sub record_call (snd ksp) [])) sbs))"
  proof (rule Cons.IH)
    fix k' sp' acc'
    assume "(k', sp') \<in> set sbs"
    then have "(k', sp') \<in> set (ksp # sbs)" by simp
    then show "rangeFiles_sub record_call sp' acc'
        = (True, acc' @ snd (rangeFiles_sub record_call sp' []))"
      by (rule Cons.prems)
  qed
  show ?case using ksp 1 2 by simp
qed

lemma rangeFiles_sub_record_call:
  "rangeFiles_sub record_call (Sub node) acc
     = (True, acc @ files node
          @ concat (map (\<lambda>ksp. snd (rangeFiles_sub record_call (snd ksp) [])) (subs node)))"
  and rangeFiles_sub_record_call_acc:
  "rangeFiles_sub record_call sp acc = (True, acc @ snd (rangeFiles_sub record_call sp []))"
proof (induction node and sp arbitrary: acc and acc)
  case (FilesByPackage fds sbs)
  have "\<And>k sp acc. (k, sp) \<in> set sbs \<Longrightarrow>
     rangeFiles_sub record_call sp acc = (True, acc @ snd (rangeFiles_sub record_call sp []))"
  proof -
    fix k sp acc
    assume "(k, sp) \<in> set sbs"
    then show "rangeFiles_sub record_call sp acc
        = (True, acc @ snd (rangeFiles_sub record_call sp []))"
      by (rule FilesByPackage) simp
  qed
  from rangeFiles_subs_record_call [OF this]
  show ?case by (simp add: rangeList_record_call)
next
  case notProtoPackage
  show ?case by simp
next
  case (Sub node)
  show ?case using Sub [of acc] Sub [of "[]"] by simp
qed

text \<open>The files of a node, and the files below each of its entries, are visited.\<close>

lemma files_visited:
  "fd \<in> set (files node) \<Longrightarrow> fd \<in> set (snd (rangeFiles_sub record_call (Sub node) []))"
  by (simp add: rangeFiles_sub_record_call)

lemma subs_visited:
  assumes "map_of (subs node) k = Some sp"
    and "fd \<in> set (snd (rangeFiles_sub record_call sp []))"
  shows "fd \<in> set (snd (rangeFiles_sub record_call (Sub node) []))"
proof -
  have "(k, sp) \<in> set (subs node)" using assms(1) by (rule map_of_SomeD)
  with assms(2) show ?thesis by (force simp: rangeFiles_sub_record_call)
qed

lemma searchFiles_found:
  "searchFiles dbn name fds = Inr d \<Longrightarrow> \<exists>fd \<in> set fds. dbn fd name = Some d"
  by (induction fds) (auto split: option.splits)

lemma searchFiles_total:
  "searchFiles dbn name fds = Inl e \<Longrightarrow> e = NotFound"
  by (induction fds) (auto split: option.splits)

lemma findDescriptor_Nil: "findDescriptor dbn name [] root = Inl NotFound"
  by (simp add: findDescriptor.simps [of dbn name "[]" root])

lemma findDescriptor_step:
  "pkg \<noteq> [] \<Longrightarrow> splitPrefix pkg = (prefix, pkg') \<Longrightarrow>
   findDescriptor dbn name pkg root =
     (case map_of (subs root) prefix of
        None \<Rightarrow> Inl NotFound
      | Some notProtoPackage \<Rightarrow> searchFiles dbn name (files root)
      | Some (Sub nextRoot) \<Rightarrow> findDescriptor dbn name pkg' nextRoot)"
  by (simp add: findDescriptor.simps [of dbn name pkg root])

lemma findDescriptor_found:
  "findDescriptor dbn name pkg root = Inr d
   \<Longrightarrow> \<exists>fd \<in> set (snd (rangeFiles_sub record_call (Sub root) [])). dbn fd name = Some d"
proof (induction dbn name pkg root rule: findDescriptor.induct)
  case (1 dbn name pkg root)
  show ?case
  proof (cases "pkg = []")
    case True
    then show ?thesis using "1.prems" by (simp add: findDescriptor_Nil)
  next
    case False
    obtain prefix pkg' where sp: "splitPrefix pkg = (prefix, pkg')" by (cases "splitPrefix pkg")
    note step = findDescriptor_step [OF False sp, of dbn name root]
    show ?thesis
    proof (cases "map_of (subs root) prefix")
      case None
      then show ?thesis using "1.prems" step by simp
    next
      case (Some s)
      show ?thesis
      proof (cases s)
        case notProtoPackage
        then have "searchFiles dbn name (files root) = Inr d"
          using "1.prems" step Some by simp
        then obtain fd where "fd \<in> set (files root)" "dbn fd name = Some d"
          by (auto dest: searchFiles_found)
        then show ?thesis using files_visited by blast
      next
        case (Sub nextRoot)
        then have "findDescriptor dbn name pkg' nextRoot = Inr d"
          using "1.prems" step Some by simp
        from "1.IH" [OF _ sp [symmetric] Some Sub this] False
        obtain fd where "fd \<in> set (snd (rangeFiles_sub record_call (Sub nextRoot) []))"
          "dbn fd name = Some d" by auto
        then show ?thesis using subs_visited [of root prefix "Sub nextRoot" fd] Some Sub by blast
      qed
    qed
  qed
qed

lemma findDescriptor_error: "findDescriptor dbn name pkg root = Inl e \<Longrightarrow> e = NotFound"
proof (induction dbn name pkg root rule: findDescriptor.induct)
  case (1 dbn name pkg root)
  show ?case
  proof (cases "pkg = []")
    case True
    then show ?thesis using "1.prems" by (simp add: findDescriptor_Nil)
  next
    case False
    obtain prefix pkg' where sp: "splitPrefix pkg = (prefix, pkg')" by (cases "splitPrefix pkg")
    note step = findDescriptor_step [OF False sp, of dbn name root]
    show ?thesis
    proof (cases "map_of (subs root) prefix")
      case None
      then show ?thesis using "1.prems" step by simp
    next
      case (Some s)
      show ?thesis
      proof (cases s)
        case notProtoPackage
        then show ?thesis using "1.prems" step Some by (auto dest: searchFiles_total)
      next
        case (Sub nextRoot)
        then have "findDescriptor dbn name pkg' nextRoot = Inl e"
          using "1.prems" step Some by simp
        from "1.IH" [OF _ sp [symmetric] Some Sub this] False show ?thesis by simp
      qed
    qed
  qed
qed

lemma HasSuffix_Nil_dot: "HasSuffix [] ''.'' = False"
  by (simp add: HasSuffix_def)

lemma RangeFilesByPackage_root:
  "RangeFilesByPackage (Some r') [] f s = snd (rangeFiles (Some (Sub (filesByPackage r'))) f s)"
  by (simp add: RangeFilesByPackage_def HasSuffix_Nil_dot walkPackage_Nil)

lemma RangeFiles_Some:
  "RangeFiles (Some r') record_call []
     = snd (rangeFiles_sub record_call (Sub (filesByPackage r')) [])"
  by (simp add: RangeFiles_def RangeFilesByPackage_root rangeFiles_def)

text \<open>
  Claim C7. \<open>FindDescriptorByName\<close> is a total function: it returns for every registry,
  nil or not, and every name. When no registered file, that is no file that \<open>RangeFiles\<close>
  visits, answers \<open>DescriptorByName\<close> for the name, the result is the nil descriptor with
  the \<open>NotFound\<close> sentinel.
\<close>

theorem FindDescriptorByName_not_registered:
  assumes "\<forall>fd \<in> set (RangeFiles r record_call []). dbn fd name = None"
  shows "FindDescriptorByName dbn r name = Inl NotFound"
proof (cases r)
  case None
  then show ?thesis by (simp add: FindDescriptorByName_def)
next
  case (Some r')
  have visited: "RangeFiles r record_call [] = snd (rangeFiles_sub record_call (Sub (filesByPackage r')) [])"
    by (simp only: Some RangeFiles_Some)
  show ?thesis
  proof (cases "findDescriptor dbn name name (filesByPackage r')")
    case (Inl e)
    then show ?thesis using Some findDescriptor_error [OF Inl] by (simp add: FindDescriptorByName_def)
  next
    case (Inr d)
    from findDescriptor_found [OF Inr] visited assms show ?thesis by auto
  qed
qed

text \<open>
  The theorem at a registry with \<open>p.M\<close> and the name \<open>p.N\<close>, for a \<open>DescriptorByName\<close> that
  answers the full names of the messages of a file.
\<close>

theorem FindDescriptorByName_not_registered_witness:
  "FindDescriptorByName
     (\<lambda>fd name. if name \<in> set (map (Append (Package fd)) (Messages fd)) then Some (Path fd, name) else None)
     (Some \<lparr>filesByPackage = FilesByPackage []
             [(''p'', Sub (FilesByPackage
                [\<lparr>Path = ''f1'', Package = ''p'', IsPlaceholder = False, Enums = [],
                   Messages = [''M''], Extensions = [], Services = []\<rparr>]
                [(''M'', notProtoPackage)]))],
           filesByPath =
             [(''f1'', [\<lparr>Path = ''f1'', Package = ''p'', IsPlaceholder = False, Enums = [],
                   Messages = [''M''], Extensions = [], Services = []\<rparr>])]\<rparr>)
     ''p.N'' = Inl NotFound"
proof -
  have "\<forall>fd\<in>set (RangeFiles (Some \<lparr>filesByPackage = FilesByPackage []
             [(''p'', Sub (FilesByPackage
                [\<lparr>Path = ''f1'', Package = ''p'', IsPlaceholder = False, Enums = [],
                   Messages = [''M''], Extensions = [], Services = []\<rparr>]
                [(''M'', notProtoPackage)]))],
           filesByPath =
             [(''f1'', [\<lparr>Path = ''f1'', Package = ''p'', IsPlaceholder = False, Enums = [],
                   Messages = [''M''], Extensions = [], Services = []\<rparr>])]\<rparr>) record_call []).
      (if ''p.N'' \<in> set (map (Append (Package fd)) (Messages fd)) then Some (Path fd, ''p.N'')
       else None) = None"
    by code_simp
  then show ?thesis by (intro FindDescriptorByName_not_registered)
qed

text \<open>
  Claim C10. On the nil registry every lookup returns without a panic:
  \<open>FindDescriptorByName\<close> gives the \<open>NotFound\<close> sentinel, and \<open>RangeFiles\<close>,
  \<open>RangeFilesByPackage\<close> and \<open>RangeFilesByPath\<close> return the state of the callback as they
  got it, whatever the callback; with the callback that records its calls, no call is
  recorded.
\<close>

theorem nil_registry_lookups:
  "FindDescriptorByName dbn None name = Inl NotFound
   \<and> RangeFiles None f s = s
   \<and> RangeFilesByPackage None pkg f s = s
   \<and> RangeFilesByPath None path f s = s
   \<and> RangeFiles None record_call [] = []
   \<and> RangeFilesByPackage None pkg record_call [] = []
   \<and> RangeFilesByPath None path record_call [] = []"
  by (simp add: FindDescriptorByName_def RangeFiles_def RangeFilesByPackage_def
      RangeFilesByPath_def)

subsection \<open>What later registrations keep\<close>














subsection \<open>Accepted files resolve\<close>









subsection \<open>A batch with a conflict\<close>














end
